theory Spec2Isabelle
  imports Main "HOL-Library.Sublist"
begin

section \<open>Static redirect pages with Open Graph metadata (redirects.py)\<close>

text \<open>
  The script reads a mapping from short names to destination URLs, fetches every
  destination, extracts the Open Graph meta tags of the fetched page, and writes one
  redirect page per mapping entry. Python's \<open>str\<close> is modelled as \<open>string\<close>
  (the UTF-8 bytes of the text); the only string tests of the source are
  \<open>startswith('og:')\<close> and \<open>endswith('.html')\<close> on ASCII patterns, which agree on
  code points and on UTF-8 bytes.
\<close>

subsection \<open>Python dictionaries\<close>

text \<open>
  A Python \<open>dict\<close> keeps its keys in insertion order and \<open>items()\<close> iterates in
  that order, so a dictionary is an association list with distinct keys. The assignment
  \<open>d[k] = v\<close> replaces the value of an existing key in place and appends a new key at the
  end.
\<close>

type_synonym ('k, 'v) dict = "('k \<times> 'v) list"

fun dict_setitem :: "('k, 'v) dict \<Rightarrow> 'k \<Rightarrow> 'v \<Rightarrow> ('k, 'v) dict" where
  "dict_setitem [] k v = [(k, v)]"
| "dict_setitem ((k', v') # d) k v =
     (if k' = k then (k', v) # d else (k', v') # dict_setitem d k v)"

subsection \<open>The parsed document\<close>

text \<open>
  \<open>BeautifulSoup(res.text, features="html.parser")\<close> is a library call: the parser is a
  parameter of the model. Of its result the script uses the elements in document order
  (the order in which \<open>find_all\<close> visits them), the name of an element and its attribute
  dictionary; \<open>tag.get(a)\<close> is \<open>None\<close> for an absent attribute.
\<close>

record element =
  tag_name :: string
  attrs :: "string \<rightharpoonup> string"

type_synonym soup = "element list"

definition tag_get :: "element \<Rightarrow> string \<Rightarrow> string option" where
  "tag_get tag a = attrs tag a"

text \<open>Python truthiness of an optional string: \<open>None\<close> and \<open>''\<close> are false.\<close>

fun truthy :: "string option \<Rightarrow> bool" where
  "truthy None = False"
| "truthy (Some s) = (s \<noteq> [])"

text \<open>The attribute filter \<open>lambda p: p and p.startswith('og:')\<close>.\<close>

definition og_property :: "string option \<Rightarrow> bool" where
  "og_property p = (truthy p \<and> prefix ''og:'' (the p))"

text \<open>
  \<open>bs.find_all(name, property=f)\<close>: the elements called \<open>name\<close> whose \<open>property\<close>
  attribute (or \<open>None\<close>) satisfies \<open>f\<close>, in document order.
\<close>

definition find_all :: "soup \<Rightarrow> string \<Rightarrow> (string option \<Rightarrow> bool) \<Rightarrow> element list" where
  "find_all bs name f = filter (\<lambda>tag. tag_name tag = name \<and> f (tag_get tag ''property'')) bs"

subsection \<open>parse_opengraph_meta\<close>

text \<open>The body of the \<open>for\<close> loop, on the dictionary built so far.\<close>

definition og_record :: "(string, string) dict \<Rightarrow> element \<Rightarrow> (string, string) dict" where
  "og_record og_meta tag =
     (let property_name = tag_get tag ''property'';
          content = tag_get tag ''content''
      in if truthy property_name \<and> truthy content
         then dict_setitem og_meta (the property_name) (the content)
         else og_meta)"

fun og_loop :: "element list \<Rightarrow> (string, string) dict \<Rightarrow> (string, string) dict" where
  "og_loop [] og_meta = og_meta"
| "og_loop (tag # tags) og_meta = og_loop tags (og_record og_meta tag)"

definition parse_opengraph_meta :: "soup \<Rightarrow> (string, string) dict" where
  "parse_opengraph_meta bs = og_loop (find_all bs ''meta'' og_property) []"

text \<open>
  Two predicates on elements, for stating what the loop records. An element is
  \<open>recorded\<close> when the test of the loop body holds for it; it is \<open>qualifying\<close>
  when \<open>find_all\<close> selects it and the loop body records it: a \<open>meta\<close> element whose
  \<open>property\<close> starts with \<open>og:\<close> and whose \<open>content\<close> is present and not empty.
\<close>

definition recorded :: "element \<Rightarrow> bool" where
  "recorded tag = (truthy (tag_get tag ''property'') \<and> truthy (tag_get tag ''content''))"

definition qualifying :: "element \<Rightarrow> bool" where
  "qualifying tag =
     (tag_name tag = ''meta'' \<and> og_property (tag_get tag ''property'') \<and>
      truthy (tag_get tag ''content''))"

text \<open>A \<open>meta\<close> element with the given attributes, for concrete documents.\<close>

definition meta_element :: "(string \<times> string) list \<Rightarrow> element" where
  "meta_element as = \<lparr>tag_name = ''meta'', attrs = map_of as\<rparr>"

subsection \<open>generate_redirect_html\<close>

text \<open>
  The two f-strings around the loop: the text up to and including the refresh
  directive, and the text from the closing of the head on.
\<close>

definition html_head :: "string \<Rightarrow> string" where
  \<open>html_head url =
     ''<!DOCTYPE html>\<newline>'' @
     ''<html lang="en">\<newline>'' @
     ''<head>\<newline>'' @
     ''    <meta charset="UTF-8">\<newline>'' @
     ''    <title>Redirecting...</title>\<newline>'' @
     ''    <meta http-equiv="refresh" content="0; url='' @ url @ ''">\<newline>''\<close>

definition html_tail :: "string \<Rightarrow> string" where
  \<open>html_tail url =
     ''</head>\<newline>'' @
     ''<body><p>Redirecting to <a href="'' @ url @ ''">'' @ url @ ''</a>.</p></body>\<newline>'' @
     ''</html>\<newline>''\<close>

fun og_tags_loop :: "(string, string) dict \<Rightarrow> string \<Rightarrow> string" where
  \<open>og_tags_loop [] html = html\<close>
| \<open>og_tags_loop ((prop, content) # og_tags) html =
     og_tags_loop og_tags
       (html @ ''    <meta property="'' @ prop @ ''" content="'' @ content @ ''">\<newline>'')\<close>

definition generate_redirect_html :: "string \<Rightarrow> (string, string) dict \<Rightarrow> string" where
  "generate_redirect_html url og_tags =
     (let html = html_head url;
          html = og_tags_loop og_tags html;
          html = html @ html_tail url
      in html)"

text \<open>
  The line the loop appends for one entry, and, for stating what the document contains
  as text, the number of positions at which a pattern occurs and the text of the
  refresh tag for a destination.
\<close>

definition og_line :: "string \<times> string \<Rightarrow> string" where
  \<open>og_line = (\<lambda>(prop, content).
     ''    <meta property="'' @ prop @ ''" content="'' @ content @ ''">\<newline>'')\<close>

fun occurrences :: "'a list \<Rightarrow> 'a list \<Rightarrow> nat" where
  "occurrences pat [] = (if pat = [] then 1 else 0)"
| "occurrences pat (x # xs) = (if prefix pat (x # xs) then 1 else 0) + occurrences pat xs"

definition refresh_tag :: "string \<Rightarrow> string" where
  \<open>refresh_tag url = ''<meta http-equiv="refresh" content="0; url='' @ url @ ''">''\<close>

text \<open>
  For stating which tags a document contains: a tokenizer for the tags of an HTML text,
  after the states of the HTML tokenizer (data, tag name, attribute name, attribute
  value in double quotes, in single quotes or unquoted). It yields the tags in document
  order, each with its name and its attributes; an attribute without a value has the
  empty value. A closing tag is a tag whose name starts with \<open>/\<close>, and the doctype
  is a tag named \<open>!DOCTYPE\<close>. Character references are not decoded and names are not
  case-folded.
\<close>

type_synonym html_tag = "string \<times> (string \<times> string) list"

definition is_space :: "char \<Rightarrow> bool" where
  "is_space c =
     (c = CHR '' '' \<or> c = CHR ''\<newline>'' \<or> c = CHR 0x09 \<or> c = CHR 0x0C \<or> c = CHR 0x0D)"

datatype lex_state =
    Data
  | TagName string
  | BeforeAttrName string "(string \<times> string) list"
  | AttrName string "(string \<times> string) list" string
  | AfterAttrName string "(string \<times> string) list" string
  | BeforeAttrValue string "(string \<times> string) list" string
  | ValueDQ string "(string \<times> string) list" string string
  | ValueSQ string "(string \<times> string) list" string string
  | ValueUQ string "(string \<times> string) list" string string

fun html_lex :: "lex_state \<Rightarrow> string \<Rightarrow> html_tag list" where
  "html_lex st [] = []"
| "html_lex Data (c # cs) =
     (if c = CHR ''<'' then html_lex (TagName []) cs else html_lex Data cs)"
| "html_lex (TagName n) (c # cs) =
     (if c = CHR ''>'' then (n, []) # html_lex Data cs
      else if is_space c then html_lex (BeforeAttrName n []) cs
      else html_lex (TagName (n @ [c])) cs)"
| "html_lex (BeforeAttrName n ats) (c # cs) =
     (if c = CHR ''>'' then (n, ats) # html_lex Data cs
      else if is_space c then html_lex (BeforeAttrName n ats) cs
      else html_lex (AttrName n ats [c]) cs)"
| "html_lex (AttrName n ats k) (c # cs) =
     (if c = CHR ''='' then html_lex (BeforeAttrValue n ats k) cs
      else if c = CHR ''>'' then (n, ats @ [(k, [])]) # html_lex Data cs
      else if is_space c then html_lex (AfterAttrName n ats k) cs
      else html_lex (AttrName n ats (k @ [c])) cs)"
| "html_lex (AfterAttrName n ats k) (c # cs) =
     (if c = CHR ''='' then html_lex (BeforeAttrValue n ats k) cs
      else if c = CHR ''>'' then (n, ats @ [(k, [])]) # html_lex Data cs
      else if is_space c then html_lex (AfterAttrName n ats k) cs
      else html_lex (AttrName n (ats @ [(k, [])]) [c]) cs)"
| "html_lex (BeforeAttrValue n ats k) (c # cs) =
     (if c = CHR 0x22 then html_lex (ValueDQ n ats k []) cs
      else if c = CHR 0x27 then html_lex (ValueSQ n ats k []) cs
      else if c = CHR ''>'' then (n, ats @ [(k, [])]) # html_lex Data cs
      else if is_space c then html_lex (BeforeAttrValue n ats k) cs
      else html_lex (ValueUQ n ats k [c]) cs)"
| "html_lex (ValueDQ n ats k v) (c # cs) =
     (if c = CHR 0x22 then html_lex (BeforeAttrName n (ats @ [(k, v)])) cs
      else html_lex (ValueDQ n ats k (v @ [c])) cs)"
| "html_lex (ValueSQ n ats k v) (c # cs) =
     (if c = CHR 0x27 then html_lex (BeforeAttrName n (ats @ [(k, v)])) cs
      else html_lex (ValueSQ n ats k (v @ [c])) cs)"
| "html_lex (ValueUQ n ats k v) (c # cs) =
     (if c = CHR ''>'' then (n, ats @ [(k, v)]) # html_lex Data cs
      else if is_space c then html_lex (BeforeAttrName n (ats @ [(k, v)])) cs
      else html_lex (ValueUQ n ats k (v @ [c])) cs)"

definition html_tags :: "string \<Rightarrow> html_tag list" where
  "html_tags doc = html_lex Data doc"

text \<open>
  A refresh-meta tag is a \<open>meta\<close> tag with \<open>http-equiv="refresh"\<close>; the one
  for a destination has the content \<open>0; url=\<close> followed by the destination. A
  property tag is a \<open>meta\<close> tag with a \<open>property\<close> attribute; the one of a
  metadata entry has the name as \<open>property\<close> and the value as \<open>content\<close>. Of
  repeated attributes the first counts.
\<close>

definition is_refresh_meta :: "html_tag \<Rightarrow> bool" where
  "is_refresh_meta t =
     (fst t = ''meta'' \<and> map_of (snd t) ''http-equiv'' = Some ''refresh'')"

definition is_property_meta :: "html_tag \<Rightarrow> bool" where
  "is_property_meta t = (fst t = ''meta'' \<and> map_of (snd t) ''property'' \<noteq> None)"

definition refresh_meta :: "string \<Rightarrow> html_tag" where
  "refresh_meta url =
     (''meta'', [(''http-equiv'', ''refresh''), (''content'', ''0; url='' @ url)])"

definition property_meta :: "string \<times> string \<Rightarrow> html_tag" where
  "property_meta = (\<lambda>(name, val). (''meta'', [(''property'', name), (''content'', val)]))"

subsection \<open>The run: redirects\<close>

text \<open>
  The run talks to the outside through library calls, which are parameters of the model:
  \<^item> \<open>yaml_safe_load\<close>: the mapping read from \<open>redirects.yml\<close> in file order, or
    \<open>None\<close> when the file cannot be opened or parsed;
  \<^item> \<open>makedirs\<close>: whether \<open>makedirs(out_dir, exist_ok=True)\<close> succeeds;
  \<^item> \<open>requests_get\<close>: the outcome of \<open>requests.get(url)\<close>, either the text of a
    \<open>RequestException\<close> or a response, of which the script reads \<open>res.text\<close>; a
    response also carries its status code;
  \<^item> \<open>html_parser\<close>: \<open>BeautifulSoup(text, features="html.parser")\<close>;
  \<^item> \<open>open_w\<close>: whether \<open>open(path, 'w')\<close> succeeds.
  A fetch is taken to depend on the URL only. The state of the run is the content of the
  files it has written and the lines it has printed. An exception ends the run: the
  outcome keeps the error and the state reached. \<open>ConfigError\<close> stands for the
  exception of a mapping file that cannot be opened or parsed, \<open>OSError\<close> for the
  one of a directory or file that cannot be created, with its path, and
  \<open>RuntimeError\<close> is the one the loop raises, with its message.
\<close>

record response =
  res_text :: string
  status_code :: int

datatype error =
    ConfigError
  | RuntimeError string
  | OSError string

record env =
  yaml_safe_load :: "(string, string) dict option"
  makedirs :: "string \<Rightarrow> bool"
  requests_get :: "string \<Rightarrow> string + response"
  html_parser :: "string \<Rightarrow> soup"
  open_w :: "string \<Rightarrow> bool"

record world =
  files :: "string \<rightharpoonup> string"
  stdout :: "string list"

datatype outcome = Done world | Failed error world

text \<open>
  \<open>os.path.join(a, b)\<close> on a POSIX system: a second component that starts with the
  separator replaces the first; otherwise the components are put together, with a
  separator unless the first is empty or ends with one.
\<close>

definition join :: "string \<Rightarrow> string \<Rightarrow> string" where
  "join a b =
     (if prefix ''/'' b then b
      else if a = [] \<or> suffix ''/'' a then a @ b
      else a @ ''/'' @ b)"

text \<open>The name of the output file for a mapping key, and its path.\<close>

definition output_name :: "string \<Rightarrow> string" where
  "output_name src = (if \<not> suffix ''.html'' src then src @ ''.html'' else src)"

definition out_path :: "string \<Rightarrow> string \<Rightarrow> string" where
  "out_path out_dir src = join out_dir (output_name src)"

text \<open>The body of the loop for one pair of the mapping.\<close>

definition redirect_one :: "env \<Rightarrow> string \<Rightarrow> string \<times> string \<Rightarrow> world \<Rightarrow> outcome" where
  "redirect_one e out_dir = (\<lambda>(src, dst) w.
     case requests_get e dst of
       Inl exc \<Rightarrow> Failed (RuntimeError (''Error fetching '' @ dst @ '': '' @ exc)) w
     | Inr res \<Rightarrow>
         let bs = html_parser e (res_text res);
             opengraph_meta_tags = parse_opengraph_meta bs;
             path = out_path out_dir src
         in if \<not> open_w e path then Failed (OSError path) w
            else Done (w\<lparr>files := (files w)(path \<mapsto> generate_redirect_html dst opengraph_meta_tags),
                         stdout := stdout w @ [''Wrote '' @ path @ '': redirect to '' @ dst]\<rparr>))"

fun redirects_loop :: "env \<Rightarrow> string \<Rightarrow> (string, string) dict \<Rightarrow> world \<Rightarrow> outcome" where
  "redirects_loop e out_dir [] w = Done w"
| "redirects_loop e out_dir (item # items) w =
     (case redirect_one e out_dir item w of
        Failed err w' \<Rightarrow> Failed err w'
      | Done w' \<Rightarrow> redirects_loop e out_dir items w')"

definition redirects :: "env \<Rightarrow> string \<Rightarrow> world \<Rightarrow> outcome" where
  "redirects e out_dir w =
     (case yaml_safe_load e of
        None \<Rightarrow> Failed ConfigError w
      | Some mapping \<Rightarrow>
          if \<not> makedirs e out_dir then Failed (OSError out_dir) w
          else redirects_loop e out_dir mapping w)"

text \<open>
  For stating where a file is placed: the last component of a path, and the paths that
  are a directory joined with a single component.
\<close>

definition basename :: "string \<Rightarrow> string" where
  "basename p = rev (takeWhile (\<lambda>c. c \<noteq> CHR ''/'') (rev p))"

definition directly_inside :: "string \<Rightarrow> string \<Rightarrow> bool" where
  "directly_inside dir p = (basename p \<noteq> [] \<and> p = join dir (basename p))"

text \<open>
  A concrete environment: \<open>https://example.com\<close> answers with a page that has one Open
  Graph tag, under a given status code; every other fetch fails; every file can be
  written.
\<close>

definition example_env :: "(string, string) dict \<Rightarrow> int \<Rightarrow> env" where
  \<open>example_env mapping code =
     \<lparr>yaml_safe_load = Some mapping,
      makedirs = (\<lambda>_. True),
      requests_get = (\<lambda>url.
        if url = ''https://example.com''
        then Inr \<lparr>res_text = ''<meta property="og:title" content="Example">'',
                  status_code = code\<rparr>
        else Inl ''connection refused''),
      html_parser = (\<lambda>body.
        if body = ''<meta property="og:title" content="Example">''
        then [meta_element [(''property'', ''og:title''), (''content'', ''Example'')]]
        else []),
      open_w = (\<lambda>_. True)\<rparr>\<close>

definition empty_world :: world where
  "empty_world = \<lparr>files = Map.empty, stdout = []\<rparr>"

section \<open>Properties of the metadata extractor\<close>

lemma dict_setitem_map_fst:
  "map fst (dict_setitem d k v) =
     (if k \<in> set (map fst d) then map fst d else map fst d @ [k])"
  by (induction d k v rule: dict_setitem.induct) auto

lemma dict_setitem_keys:
  "fst ` set (dict_setitem d k v) = insert k (fst ` set d)"
proof -
  have "set (map fst (dict_setitem d k v)) = insert k (set (map fst d))"
    unfolding dict_setitem_map_fst by auto
  then show ?thesis by simp
qed

lemma dict_setitem_distinct:
  "distinct (map fst d) \<Longrightarrow> distinct (map fst (dict_setitem d k v))"
  by (simp add: dict_setitem_map_fst)

lemma map_of_dict_setitem:
  "map_of (dict_setitem d k v) = (map_of d)(k \<mapsto> v)"
  by (induction d k v rule: dict_setitem.induct) auto

lemma og_record_keys:
  "fst ` set (og_record og_meta tag) =
     (if truthy (tag_get tag ''property'') \<and> truthy (tag_get tag ''content'')
      then insert (the (tag_get tag ''property'')) (fst ` set og_meta)
      else fst ` set og_meta)"
  by (simp add: og_record_def Let_def dict_setitem_keys)

lemma og_loop_keys:
  assumes "\<forall>tag \<in> set tags. og_property (tag_get tag ''property'')"
    and "\<forall>k \<in> fst ` set og_meta. prefix ''og:'' k"
  shows "\<forall>k \<in> fst ` set (og_loop tags og_meta). prefix ''og:'' k"
  using assms
proof (induction tags arbitrary: og_meta)
  case Nil
  then show ?case by simp
next
  case (Cons tag tags)
  have "og_property (tag_get tag ''property'')"
    using Cons.prems(1) by simp
  then have "prefix ''og:'' (the (tag_get tag ''property''))"
    by (simp add: og_property_def)
  with Cons.prems(2)
  have "\<forall>k \<in> fst ` set (og_record og_meta tag). prefix ''og:'' k"
    unfolding og_record_keys by simp
  with Cons show ?case by simp
qed

lemma truthy_Some: "truthy x \<Longrightarrow> \<exists>s. x = Some s \<and> s \<noteq> []"
  by (cases x) simp_all

lemma recorded_Some:
  "recorded tag \<Longrightarrow>
   \<exists>p c. tag_get tag ''property'' = Some p \<and> tag_get tag ''content'' = Some c \<and>
     p \<noteq> [] \<and> c \<noteq> []"
  unfolding recorded_def using truthy_Some by blast

lemma og_record_skip: "\<not> recorded tag \<Longrightarrow> og_record og_meta tag = og_meta"
  by (auto simp: og_record_def recorded_def Let_def)

lemma og_record_set:
  "recorded tag \<Longrightarrow>
   og_record og_meta tag =
     dict_setitem og_meta (the (tag_get tag ''property'')) (the (tag_get tag ''content''))"
  by (simp add: og_record_def recorded_def Let_def)

lemma og_loop_filter: "og_loop (filter recorded tags) og_meta = og_loop tags og_meta"
  by (induction tags arbitrary: og_meta) (simp_all add: og_record_skip)

lemma find_all_qualifying:
  "filter recorded (find_all bs ''meta'' og_property) = filter qualifying bs"
  unfolding find_all_def filter_filter
  by (rule filter_cong) (auto simp: qualifying_def recorded_def og_property_def)

lemma parse_opengraph_meta_qualifying:
  "parse_opengraph_meta bs = og_loop (filter qualifying bs) []"
  unfolding parse_opengraph_meta_def
  using og_loop_filter [of "find_all bs ''meta'' og_property" "[]"]
  by (simp add: find_all_qualifying)

lemma dict_setitem_entries: "set (dict_setitem d k v) \<subseteq> insert (k, v) (set d)"
  by (induction d k v rule: dict_setitem.induct) auto

lemma og_loop_entries:
  "(k, v) \<in> set (og_loop tags og_meta) \<Longrightarrow>
   (k, v) \<in> set og_meta \<or>
   (\<exists>tag \<in> set tags. recorded tag \<and> tag_get tag ''property'' = Some k \<and>
      tag_get tag ''content'' = Some v)"
proof (induction tags arbitrary: og_meta)
  case Nil
  then show ?case by simp
next
  case (Cons tag tags)
  from Cons.prems have "(k, v) \<in> set (og_loop tags (og_record og_meta tag))"
    by simp
  then consider "(k, v) \<in> set (og_record og_meta tag)"
    | "\<exists>t \<in> set tags. recorded t \<and> tag_get t ''property'' = Some k \<and>
         tag_get t ''content'' = Some v"
    using Cons.IH by blast
  then show ?case
  proof cases
    case 1
    show ?thesis
    proof (cases "recorded tag")
      case True
      then obtain p c where pc: "tag_get tag ''property'' = Some p"
          "tag_get tag ''content'' = Some c"
        using recorded_Some by blast
      with 1 True have "(k, v) \<in> set (dict_setitem og_meta p c)"
        by (simp add: og_record_set)
      with dict_setitem_entries have "(k, v) \<in> set og_meta \<or> (k, v) = (p, c)"
        by fastforce
      with True pc show ?thesis by auto
    next
      case False
      with 1 show ?thesis by (simp add: og_record_skip)
    qed
  next
    case 2
    then show ?thesis by auto
  qed
qed

lemma og_loop_lookup:
  "map_of (og_loop tags og_meta) p =
     (if filter (\<lambda>tag. recorded tag \<and> tag_get tag ''property'' = Some p) tags = []
      then map_of og_meta p
      else tag_get
        (last (filter (\<lambda>tag. recorded tag \<and> tag_get tag ''property'' = Some p) tags))
        ''content'')"
proof (induction tags arbitrary: og_meta)
  case Nil
  then show ?case by simp
next
  case (Cons tag tags)
  show ?case
  proof (cases "recorded tag")
    case True
    then obtain p' c where pc: "tag_get tag ''property'' = Some p'"
        "tag_get tag ''content'' = Some c"
      using recorded_Some by blast
    with True have "map_of (og_record og_meta tag) p = (if p' = p then Some c else map_of og_meta p)"
      by (simp add: og_record_set map_of_dict_setitem)
    with True pc show ?thesis
      by (simp add: Cons.IH)
  next
    case False
    then show ?thesis
      by (simp add: Cons.IH og_record_skip)
  qed
qed

lemma og_loop_distinct:
  "distinct (map fst og_meta) \<Longrightarrow> distinct (map fst (og_loop tags og_meta))"
  by (induction tags arbitrary: og_meta)
    (simp_all add: og_record_def Let_def dict_setitem_distinct)

lemma distinct_no_entry:
  "k \<notin> fst ` set d \<Longrightarrow> filter (\<lambda>kv. fst kv = k) d = []"
  by (induction d) auto

lemma distinct_one_entry:
  "distinct (map fst d) \<Longrightarrow> map_of d k = Some v \<Longrightarrow> filter (\<lambda>kv. fst kv = k) d = [(k, v)]"
proof (induction d)
  case Nil
  then show ?case by simp
next
  case (Cons a d)
  obtain k' v' where a: "a = (k', v')" by (cases a)
  show ?case
  proof (cases "k' = k")
    case True
    with Cons.prems a have "v' = v" and "k \<notin> fst ` set d" by simp_all
    with True a show ?thesis by (simp add: distinct_no_entry)
  next
    case False
    with Cons a show ?thesis by simp
  qed
qed

text \<open>
  C10. Every key of the dictionary returned by \<open>parse_opengraph_meta\<close> starts with the
  prefix \<open>og:\<close>, whatever the document is.
\<close>

theorem parse_opengraph_meta_keys_og:
  "\<forall>k \<in> fst ` set (parse_opengraph_meta bs). prefix ''og:'' k"
  unfolding parse_opengraph_meta_def
  by (rule og_loop_keys) (simp_all add: find_all_def)

theorem parse_opengraph_meta_keys_og_witness:
  "''og:title'' \<in> fst ` set (parse_opengraph_meta
      [meta_element [(''property'', ''og:title''), (''content'', ''Example'')]]) \<and>
   prefix ''og:'' ''og:title''"
  using parse_opengraph_meta_keys_og
    [of "[meta_element [(''property'', ''og:title''), (''content'', ''Example'')]]"]
  by (simp add: parse_opengraph_meta_def find_all_def og_property_def og_record_def
      tag_get_def meta_element_def)

lemma qualifying_recorded: "qualifying tag \<Longrightarrow> recorded tag"
  by (simp add: qualifying_def recorded_def og_property_def)

lemma parse_opengraph_meta_lookup:
  "map_of (parse_opengraph_meta bs) p =
     (if filter (\<lambda>tag. qualifying tag \<and> tag_get tag ''property'' = Some p) bs = []
      then None
      else tag_get
        (last (filter (\<lambda>tag. qualifying tag \<and> tag_get tag ''property'' = Some p) bs))
        ''content'')"
proof -
  have "filter (\<lambda>tag. recorded tag \<and> tag_get tag ''property'' = Some p) (filter qualifying bs)
        = filter (\<lambda>tag. qualifying tag \<and> tag_get tag ''property'' = Some p) bs"
    unfolding filter_filter
    by (rule filter_cong) (auto dest: qualifying_recorded)
  then show ?thesis
    by (simp add: parse_opengraph_meta_qualifying og_loop_lookup)
qed

lemma parse_opengraph_meta_distinct: "distinct (map fst (parse_opengraph_meta bs))"
  by (simp add: parse_opengraph_meta_def og_loop_distinct)

text \<open>
  C3. When a document has two or more qualifying \<open>meta\<close> elements with the same
  \<open>property\<close> value \<open>p\<close>, the returned dictionary has exactly one entry with key
  \<open>p\<close>, and its value is the \<open>content\<close> of the last of these elements.
\<close>

theorem parse_opengraph_meta_last_wins:
  assumes "qs = filter (\<lambda>tag. qualifying tag \<and> tag_get tag ''property'' = Some p) bs"
    and "2 \<le> length qs"
  shows "length (filter (\<lambda>kv. fst kv = p) (parse_opengraph_meta bs)) = 1 \<and>
         map_of (parse_opengraph_meta bs) p = tag_get (last qs) ''content''"
proof -
  from assms(2) have ne: "qs \<noteq> []" by auto
  have look: "map_of (parse_opengraph_meta bs) p = tag_get (last qs) ''content''"
    unfolding parse_opengraph_meta_lookup assms(1) [symmetric] using ne by simp
  from ne have "last qs \<in> set qs" by (rule last_in_set)
  then have "qualifying (last qs)" unfolding assms(1) by simp
  then have "recorded (last qs)" by (rule qualifying_recorded)
  then obtain c where "tag_get (last qs) ''content'' = Some c"
    using recorded_Some by blast
  with look have "map_of (parse_opengraph_meta bs) p = Some c" by simp
  with parse_opengraph_meta_distinct
  have "filter (\<lambda>kv. fst kv = p) (parse_opengraph_meta bs) = [(p, c)]"
    by (rule distinct_one_entry)
  with look show ?thesis by simp
qed

theorem parse_opengraph_meta_last_wins_witness:
  "2 \<le> length (filter (\<lambda>tag. qualifying tag \<and> tag_get tag ''property'' = Some ''og:title'')
       [meta_element [(''property'', ''og:title''), (''content'', ''First'')],
        meta_element [(''property'', ''og:type''), (''content'', ''website'')],
        meta_element [(''property'', ''og:title''), (''content'', ''Second'')]]) \<and>
   parse_opengraph_meta
       [meta_element [(''property'', ''og:title''), (''content'', ''First'')],
        meta_element [(''property'', ''og:type''), (''content'', ''website'')],
        meta_element [(''property'', ''og:title''), (''content'', ''Second'')]]
     = [(''og:title'', ''Second''), (''og:type'', ''website'')] \<and>
   map_of (parse_opengraph_meta
       [meta_element [(''property'', ''og:title''), (''content'', ''First'')],
        meta_element [(''property'', ''og:type''), (''content'', ''website'')],
        meta_element [(''property'', ''og:title''), (''content'', ''Second'')]]) ''og:title''
     = Some ''Second''"
  using parse_opengraph_meta_last_wins
    [OF refl, of "''og:title''"
       "[meta_element [(''property'', ''og:title''), (''content'', ''First'')],
         meta_element [(''property'', ''og:type''), (''content'', ''website'')],
         meta_element [(''property'', ''og:title''), (''content'', ''Second'')]]"]
  by (simp add: parse_opengraph_meta_def find_all_def og_property_def og_record_def
      tag_get_def meta_element_def qualifying_def)

lemma parse_opengraph_meta_drop:
  assumes "\<not> qualifying tag"
  shows "parse_opengraph_meta (xs @ tag # ys) = parse_opengraph_meta (xs @ ys)"
  using assms by (simp add: parse_opengraph_meta_qualifying)

lemma parse_opengraph_meta_entries:
  assumes "(k, v) \<in> set (parse_opengraph_meta bs)"
  shows "k \<noteq> [] \<and> v \<noteq> [] \<and>
    (\<exists>t \<in> set bs. qualifying t \<and> tag_get t ''property'' = Some k \<and>
       tag_get t ''content'' = Some v)"
proof -
  from assms have "(k, v) \<in> set (og_loop (filter qualifying bs) [])"
    by (simp add: parse_opengraph_meta_qualifying)
  then obtain t where t: "t \<in> set (filter qualifying bs)" "recorded t"
      "tag_get t ''property'' = Some k" "tag_get t ''content'' = Some v"
    using og_loop_entries by fastforce
  then have "k \<noteq> []" "v \<noteq> []"
    by (auto simp: recorded_def)
  with t show ?thesis by auto
qed

text \<open>
  C4. A \<open>meta\<close> element whose \<open>property\<close> starts with \<open>og:\<close> and whose
  \<open>content\<close> is absent or empty is skipped: the result is the one of the document
  without that element. Every entry of the result has a key and a value that are not
  empty, taken from an element that has both attributes present and not empty.
\<close>

theorem parse_opengraph_meta_partial_skipped:
  "(\<forall>xs tag ys. bs = xs @ tag # ys \<and> tag_name tag = ''meta'' \<and>
       og_property (tag_get tag ''property'') \<and> \<not> truthy (tag_get tag ''content'')
     \<longrightarrow> parse_opengraph_meta bs = parse_opengraph_meta (xs @ ys)) \<and>
   (\<forall>(k, v) \<in> set (parse_opengraph_meta bs). k \<noteq> [] \<and> v \<noteq> [] \<and>
     (\<exists>t \<in> set bs. qualifying t \<and> tag_get t ''property'' = Some k \<and>
        tag_get t ''content'' = Some v))"
proof (intro conjI allI impI)
  fix xs tag ys
  assume a: "bs = xs @ tag # ys \<and> tag_name tag = ''meta'' \<and>
       og_property (tag_get tag ''property'') \<and> \<not> truthy (tag_get tag ''content'')"
  then have "\<not> qualifying tag" by (simp add: qualifying_def)
  with a show "parse_opengraph_meta bs = parse_opengraph_meta (xs @ ys)"
    by (simp add: parse_opengraph_meta_drop)
next
  show "\<forall>(k, v) \<in> set (parse_opengraph_meta bs). k \<noteq> [] \<and> v \<noteq> [] \<and>
     (\<exists>t \<in> set bs. qualifying t \<and> tag_get t ''property'' = Some k \<and>
        tag_get t ''content'' = Some v)"
    using parse_opengraph_meta_entries by blast
qed

theorem parse_opengraph_meta_partial_skipped_witness:
  "parse_opengraph_meta
     [meta_element [(''property'', ''og:image'')],
      meta_element [(''property'', ''og:title''), (''content'', ''Example'')],
      meta_element [(''property'', ''og:description''), (''content'', [])]]
   = parse_opengraph_meta
     [meta_element [(''property'', ''og:title''), (''content'', ''Example'')],
      meta_element [(''property'', ''og:description''), (''content'', [])]] \<and>
   parse_opengraph_meta
     [meta_element [(''property'', ''og:image'')],
      meta_element [(''property'', ''og:title''), (''content'', ''Example'')],
      meta_element [(''property'', ''og:description''), (''content'', [])]]
   = [(''og:title'', ''Example'')]"
  using parse_opengraph_meta_partial_skipped
    [of "[meta_element [(''property'', ''og:image'')],
          meta_element [(''property'', ''og:title''), (''content'', ''Example'')],
          meta_element [(''property'', ''og:description''), (''content'', [])]]",
     THEN conjunct1, rule_format,
     of "[]" "meta_element [(''property'', ''og:image'')]"
        "[meta_element [(''property'', ''og:title''), (''content'', ''Example'')],
          meta_element [(''property'', ''og:description''), (''content'', [])]]"]
  by (simp add: parse_opengraph_meta_def find_all_def og_property_def og_record_def
      tag_get_def meta_element_def)

section \<open>Properties of the page generator\<close>

lemma og_tags_loop_concat:
  \<open>og_tags_loop og_tags html =
     html @ concat (map (\<lambda>(prop, content).
       ''    <meta property="'' @ prop @ ''" content="'' @ content @ ''">\<newline>'') og_tags)\<close>
  by (induction og_tags html rule: og_tags_loop.induct) simp_all

lemma generate_redirect_html_concat:
  "generate_redirect_html url og_tags =
     html_head url @ concat (map og_line og_tags) @ html_tail url"
  by (simp add: generate_redirect_html_def og_tags_loop_concat og_line_def)

lemma html_lex_data_skip:
  "CHR ''<'' \<notin> set xs \<Longrightarrow> html_lex Data (xs @ ys) = html_lex Data ys"
  by (induction xs) auto

lemma html_lex_dq_value:
  "CHR 0x22 \<notin> set v \<Longrightarrow>
   html_lex (ValueDQ n ats k acc) (v @ CHR 0x22 # rest) =
     html_lex (BeforeAttrName n (ats @ [(k, acc @ v)])) rest"
  by (induction v arbitrary: acc) auto

lemma html_lex_head:
  assumes "CHR 0x22 \<notin> set url"
  shows "html_lex Data (html_head url @ rest) =
     [(''!DOCTYPE'', [(''html'', [])]), (''html'', [(''lang'', ''en'')]), (''head'', []),
      (''meta'', [(''charset'', ''UTF-8'')]), (''title'', []), (''/title'', []),
      refresh_meta url] @ html_lex Data rest"
  using assms
  by (simp add: html_head_def refresh_meta_def is_space_def html_lex_dq_value)

lemma html_lex_tail:
  assumes "CHR 0x22 \<notin> set url" and "CHR ''<'' \<notin> set url"
  shows "html_lex Data (html_tail url) =
     [(''/head'', []), (''body'', []), (''p'', []), (''a'', [(''href'', url)]),
      (''/a'', []), (''/p'', []), (''/body'', []), (''/html'', [])]"
  using assms
  by (simp add: html_tail_def is_space_def html_lex_dq_value html_lex_data_skip)

lemma html_lex_line:
  assumes "CHR 0x22 \<notin> set name" and "CHR 0x22 \<notin> set val"
  shows "html_lex Data (og_line (name, val) @ rest) =
           property_meta (name, val) # html_lex Data rest"
  using assms
  by (simp add: og_line_def property_meta_def is_space_def html_lex_dq_value)

lemma html_lex_lines:
  assumes "\<forall>(name, val) \<in> set og_tags. CHR 0x22 \<notin> set name \<and> CHR 0x22 \<notin> set val"
  shows "html_lex Data (concat (map og_line og_tags) @ rest) =
           map property_meta og_tags @ html_lex Data rest"
  using assms
proof (induction og_tags)
  case Nil
  then show ?case by simp
next
  case (Cons a og_tags)
  obtain k v where a: "a = (k, v)" by (cases a)
  with Cons.prems have "CHR 0x22 \<notin> set k" "CHR 0x22 \<notin> set v"
    by simp_all
  then have "html_lex Data (og_line (k, v) @ concat (map og_line og_tags) @ rest) =
      property_meta (k, v) # html_lex Data (concat (map og_line og_tags) @ rest)"
    by (rule html_lex_line)
  with Cons a show ?case by simp
qed

lemma filter_refresh_property: "filter is_refresh_meta (map property_meta og_tags) = []"
  by (induction og_tags) (auto simp: is_refresh_meta_def property_meta_def)

lemma filter_property_property:
  "filter is_property_meta (map property_meta og_tags) = map property_meta og_tags"
  by (induction og_tags) (auto simp: is_property_meta_def property_meta_def)

text \<open>
  C1 as stated fails: the values are embedded without escaping, so a content value can
  close its attribute and its tag and carry a second refresh tag for the same
  destination into the document.
\<close>

theorem generate_redirect_html_two_refresh_tags:
  \<open>occurrences (refresh_tag ''https://example.com'')
     (generate_redirect_html ''https://example.com''
        [(''og:title'', ''"><meta http-equiv="refresh" content="0; url=https://example.com'')])
   = 2 \<and>
   filter is_refresh_meta (html_tags
     (generate_redirect_html ''https://example.com''
        [(''og:title'', ''"><meta http-equiv="refresh" content="0; url=https://example.com'')]))
   = [refresh_meta ''https://example.com'', refresh_meta ''https://example.com'']\<close>
  by (simp add: refresh_tag_def generate_redirect_html_def html_head_def html_tail_def
      html_tags_def is_space_def is_refresh_meta_def refresh_meta_def)

text \<open>
  A double quote alone is enough: a content value that closes its attribute turns the
  property tag of its entry into a second refresh-meta tag.
\<close>

lemma generate_redirect_html_attribute_injection:
  \<open>filter is_refresh_meta (html_tags
     (generate_redirect_html ''https://example.com''
        [(''og:title'', ''0; url=https://example.com" http-equiv="refresh'')]))
   = [refresh_meta ''https://example.com'',
      (''meta'', [(''property'', ''og:title''), (''content'', ''0; url=https://example.com''),
                 (''http-equiv'', ''refresh'')])]\<close>
  by (simp add: generate_redirect_html_def html_head_def html_tail_def
      html_tags_def is_space_def is_refresh_meta_def refresh_meta_def)

text \<open>
  The URL is also written as the text of the link, where a \<open><\<close> opens a tag.
\<close>

lemma generate_redirect_html_url_injection:
  \<open>filter is_refresh_meta (html_tags
     (generate_redirect_html ''x<meta http-equiv=refresh>'' []))
   = [refresh_meta ''x<meta http-equiv=refresh>'',
      (''meta'', [(''http-equiv'', ''refresh'')])]\<close>
  by (simp add: generate_redirect_html_def html_head_def html_tail_def
      html_tags_def is_space_def is_refresh_meta_def refresh_meta_def)

text \<open>
  C1 (amended). When the URL contains neither \<open><\<close> nor a double quote and no
  property name or content value contains a double quote, the tags of the document are
  the fixed tags of the head up to the refresh-meta tag for the destination, then the
  property tag of every entry in iteration order, then the closing of the head and the
  body. So the document has exactly one refresh-meta tag, the one for the destination,
  and its property tags are exactly the ones of the entries, in order.
\<close>

theorem generate_redirect_html_tags:
  assumes "CHR ''<'' \<notin> set url" and "CHR 0x22 \<notin> set url"
    and "\<forall>(name, val) \<in> set og_tags. CHR 0x22 \<notin> set name \<and> CHR 0x22 \<notin> set val"
  shows "html_tags (generate_redirect_html url og_tags) =
       [(''!DOCTYPE'', [(''html'', [])]), (''html'', [(''lang'', ''en'')]), (''head'', []),
        (''meta'', [(''charset'', ''UTF-8'')]), (''title'', []), (''/title'', []),
        refresh_meta url] @
       map property_meta og_tags @
       [(''/head'', []), (''body'', []), (''p'', []), (''a'', [(''href'', url)]),
        (''/a'', []), (''/p'', []), (''/body'', []), (''/html'', [])] \<and>
     filter is_refresh_meta (html_tags (generate_redirect_html url og_tags)) =
       [refresh_meta url] \<and>
     filter is_property_meta (html_tags (generate_redirect_html url og_tags)) =
       map property_meta og_tags"
proof -
  have tags: "html_tags (generate_redirect_html url og_tags) =
       [(''!DOCTYPE'', [(''html'', [])]), (''html'', [(''lang'', ''en'')]), (''head'', []),
        (''meta'', [(''charset'', ''UTF-8'')]), (''title'', []), (''/title'', []),
        refresh_meta url] @
       map property_meta og_tags @
       [(''/head'', []), (''body'', []), (''p'', []), (''a'', [(''href'', url)]),
        (''/a'', []), (''/p'', []), (''/body'', []), (''/html'', [])]"
    unfolding html_tags_def generate_redirect_html_concat
    by (simp only: html_lex_head [OF assms(2)] html_lex_lines [OF assms(3)]
        html_lex_tail [OF assms(2) assms(1)])
  have r: "filter is_refresh_meta (html_tags (generate_redirect_html url og_tags)) =
       [refresh_meta url]"
    unfolding tags
    by (simp add: filter_refresh_property) (simp add: is_refresh_meta_def refresh_meta_def)
  have p: "filter is_property_meta (html_tags (generate_redirect_html url og_tags)) =
       map property_meta og_tags"
    unfolding tags
    by (simp add: filter_property_property) (simp add: is_property_meta_def refresh_meta_def)
  from tags r p show ?thesis by blast
qed

theorem generate_redirect_html_tags_witness:
  \<open>CHR ''<'' \<notin> set ''https://example.com'' \<and> CHR 0x22 \<notin> set ''https://example.com'' \<and>
   filter is_refresh_meta (html_tags (generate_redirect_html ''https://example.com''
       [(''og:title'', ''Tom & Jerry <live>''), (''og:type'', ''website'')])) =
     [(''meta'', [(''http-equiv'', ''refresh''), (''content'', ''0; url=https://example.com'')])] \<and>
   filter is_property_meta (html_tags (generate_redirect_html ''https://example.com''
       [(''og:title'', ''Tom & Jerry <live>''), (''og:type'', ''website'')])) =
     [(''meta'', [(''property'', ''og:title''), (''content'', ''Tom & Jerry <live>'')]),
      (''meta'', [(''property'', ''og:type''), (''content'', ''website'')])]\<close>
proof -
  let ?og = "[(''og:title'', ''Tom & Jerry <live>''), (''og:type'', ''website'')]"
  let ?url = "''https://example.com''"
  have h1: "CHR ''<'' \<notin> set ?url" by simp
  have h2: "CHR 0x22 \<notin> set ?url" by simp
  have h3: "\<forall>(name, val) \<in> set ?og. CHR 0x22 \<notin> set name \<and> CHR 0x22 \<notin> set val"
    by simp
  note t = generate_redirect_html_tags [OF h1 h2 h3]
  from t have a: "filter is_refresh_meta (html_tags (generate_redirect_html ?url ?og)) =
      [refresh_meta ?url]"
    by (rule conjunct2 [THEN conjunct1])
  from t have b: "filter is_property_meta (html_tags (generate_redirect_html ?url ?og)) =
      map property_meta ?og"
    by (rule conjunct2 [THEN conjunct2])
  from a b h1 h2 show ?thesis
    by (simp add: refresh_meta_def property_meta_def)
qed

text \<open>
  C5. The URL, the property names and the content values are embedded in the document
  as they are: the output is the fixed text with the inputs spliced in, and no character
  of an input is replaced or escaped.
\<close>

theorem generate_redirect_html_verbatim:
  \<open>generate_redirect_html url og_tags =
     ''<!DOCTYPE html>\<newline>'' @
     ''<html lang="en">\<newline>'' @
     ''<head>\<newline>'' @
     ''    <meta charset="UTF-8">\<newline>'' @
     ''    <title>Redirecting...</title>\<newline>'' @
     ''    <meta http-equiv="refresh" content="0; url='' @ url @ ''">\<newline>'' @
     concat (map (\<lambda>(prop, content).
       ''    <meta property="'' @ prop @ ''" content="'' @ content @ ''">\<newline>'') og_tags) @
     ''</head>\<newline>'' @
     ''<body><p>Redirecting to <a href="'' @ url @ ''">'' @ url @ ''</a>.</p></body>\<newline>'' @
     ''</html>\<newline>''\<close>
  by (simp add: generate_redirect_html_def og_tags_loop_concat html_head_def html_tail_def)

text \<open>An instance with quotes, angle brackets and an ampersand in the inputs.\<close>

lemma generate_redirect_html_markup_example:
  \<open>generate_redirect_html ''http://a/?q="x"&r=<y>'' [(''og:title'', ''<b>"Tom" & Jerry</b>'')] =
     ''<!DOCTYPE html>\<newline>'' @
     ''<html lang="en">\<newline>'' @
     ''<head>\<newline>'' @
     ''    <meta charset="UTF-8">\<newline>'' @
     ''    <title>Redirecting...</title>\<newline>'' @
     ''    <meta http-equiv="refresh" content="0; url=http://a/?q="x"&r=<y>">\<newline>'' @
     ''    <meta property="og:title" content="<b>"Tom" & Jerry</b>">\<newline>'' @
     ''</head>\<newline>'' @
     ''<body><p>Redirecting to <a href="http://a/?q="x"&r=<y>">http://a/?q="x"&r=<y></a>.</p></body>\<newline>'' @
     ''</html>\<newline>''\<close>
  by (simp add: generate_redirect_html_def html_head_def html_tail_def)

text \<open>
  The order of the entries is part of the input: the same entries in another order give
  another document.
\<close>

lemma generate_redirect_html_order:
  "generate_redirect_html ''u'' [(''og:a'', ''x''), (''og:b'', ''y'')] \<noteq>
   generate_redirect_html ''u'' [(''og:b'', ''y''), (''og:a'', ''x'')]"
  by (simp add: generate_redirect_html_def html_head_def html_tail_def)

section \<open>Properties of the run\<close>

lemma redirect_one_fetch_failure:
  "requests_get e dst = Inl exc \<Longrightarrow>
   redirect_one e out_dir (src, dst) w =
     Failed (RuntimeError (''Error fetching '' @ dst @ '': '' @ exc)) w"
  by (simp add: redirect_one_def)

lemma redirects_loop_append:
  "redirects_loop e out_dir (xs @ ys) w =
     (case redirects_loop e out_dir xs w of
        Failed err w' \<Rightarrow> Failed err w'
      | Done w' \<Rightarrow> redirects_loop e out_dir ys w')"
  by (induction xs arbitrary: w) (simp_all split: outcome.splits)

text \<open>
  C2. When the fetch of a destination fails, after the earlier pairs of the mapping have
  been processed, the run ends with a \<open>RuntimeError\<close> whose message names the
  destination. The state is the one reached after the earlier pairs: their files are
  there, and nothing is written for the failing pair or for a later one.
\<close>

theorem redirects_fetch_failure_aborts:
  assumes "yaml_safe_load e = Some (earlier @ (src, dst) # later)"
    and "makedirs e out_dir"
    and "redirects_loop e out_dir earlier w = Done w'"
    and "requests_get e dst = Inl exc"
  shows "redirects e out_dir w =
           Failed (RuntimeError (''Error fetching '' @ dst @ '': '' @ exc)) w'"
  using assms
  by (simp add: redirects_def redirects_loop_append redirect_one_fetch_failure)

theorem redirects_fetch_failure_aborts_witness:
  "redirects
     (example_env [(''home'', ''https://example.com''), (''blog'', ''https://down.example''),
                   (''docs'', ''https://example.com'')] 200)
     ''out'' empty_world =
   Failed (RuntimeError ''Error fetching https://down.example: connection refused'')
     \<lparr>files = [''out/home.html'' \<mapsto>
                generate_redirect_html ''https://example.com'' [(''og:title'', ''Example'')]],
      stdout = [''Wrote out/home.html: redirect to https://example.com'']\<rparr>"
proof -
  let ?e = "example_env [(''home'', ''https://example.com''), (''blog'', ''https://down.example''),
                   (''docs'', ''https://example.com'')] 200"
  let ?w' = "\<lparr>files = [''out/home.html'' \<mapsto>
                generate_redirect_html ''https://example.com'' [(''og:title'', ''Example'')]],
      stdout = [''Wrote out/home.html: redirect to https://example.com'']\<rparr>"
  have h1: "yaml_safe_load ?e =
      Some ([(''home'', ''https://example.com'')] @ (''blog'', ''https://down.example'') #
            [(''docs'', ''https://example.com'')])"
    by (simp add: example_env_def)
  have h2: "makedirs ?e ''out''"
    by (simp add: example_env_def)
  have h3: "redirects_loop ?e ''out'' [(''home'', ''https://example.com'')] empty_world = Done ?w'"
    by (simp add: example_env_def empty_world_def redirect_one_def out_path_def output_name_def
        join_def suffix_to_prefix parse_opengraph_meta_def find_all_def og_property_def
        og_record_def tag_get_def meta_element_def)
  have h4: "requests_get ?e ''https://down.example'' = Inl ''connection refused''"
    by (simp add: example_env_def)
  from redirects_fetch_failure_aborts [OF h1 h2 h3 h4] show ?thesis by simp
qed

lemma redirect_one_success:
  assumes "requests_get e dst = Inr res" and "open_w e (out_path out_dir src)"
  shows "redirect_one e out_dir (src, dst) w =
     Done (w\<lparr>files := (files w)(out_path out_dir src \<mapsto>
                  generate_redirect_html dst (parse_opengraph_meta (html_parser e (res_text res)))),
              stdout := stdout w @
                  [''Wrote '' @ out_path out_dir src @ '': redirect to '' @ dst]\<rparr>)"
  using assms by (simp add: redirect_one_def Let_def)

lemma redirect_one_Done:
  assumes "redirect_one e out_dir (src, dst) w = Done w'"
  shows "\<exists>page. files w' = (files w)(out_path out_dir src \<mapsto> page)"
  using assms
  by (auto simp: redirect_one_def Let_def split: sum.splits if_splits)

text \<open>
  C6. The file name for a mapping key is the key followed by \<open>.html\<close> exactly when
  the key does not end in \<open>.html\<close>, and the key itself otherwise; it always ends in
  \<open>.html\<close>. A successful step writes the file of that name under the output
  directory and no other.
\<close>

theorem output_name_html_suffix:
  "(\<not> suffix ''.html'' src \<longrightarrow> output_name src = src @ ''.html'') \<and>
   (suffix ''.html'' src \<longrightarrow> output_name src = src) \<and>
   (output_name src = src @ ''.html'' \<longleftrightarrow> \<not> suffix ''.html'' src) \<and>
   suffix ''.html'' (output_name src) \<and>
   (\<forall>e out_dir dst w w'. redirect_one e out_dir (src, dst) w = Done w' \<longrightarrow>
      dom (files w') = insert (join out_dir (output_name src)) (dom (files w)))"
proof (intro conjI allI impI)
  show "suffix ''.html'' (output_name src)"
    by (simp add: output_name_def suffix_def)
next
  fix e out_dir dst w w'
  assume "redirect_one e out_dir (src, dst) w = Done w'"
  then obtain page where "files w' = (files w)(out_path out_dir src \<mapsto> page)"
    using redirect_one_Done by blast
  then show "dom (files w') = insert (join out_dir (output_name src)) (dom (files w))"
    by (simp add: out_path_def)
qed (simp_all add: output_name_def)

theorem output_name_html_suffix_witness:
  "\<not> suffix ''.html'' ''foo'' \<and> output_name ''foo'' = ''foo.html'' \<and>
   suffix ''.html'' ''foo.html'' \<and> output_name ''foo.html'' = ''foo.html'' \<and>
   redirect_one (example_env [] 200) ''out'' (''foo'', ''https://example.com'') empty_world =
     Done \<lparr>files = [''out/foo.html'' \<mapsto>
                generate_redirect_html ''https://example.com'' [(''og:title'', ''Example'')]],
           stdout = [''Wrote out/foo.html: redirect to https://example.com'']\<rparr> \<and>
   dom (files \<lparr>files = [''out/foo.html'' \<mapsto>
                generate_redirect_html ''https://example.com'' [(''og:title'', ''Example'')]],
           stdout = [''Wrote out/foo.html: redirect to https://example.com'']\<rparr>) =
     insert (join ''out'' (output_name ''foo'')) (dom (files empty_world))"
proof -
  have a: "\<not> suffix ''.html'' ''foo''" and b: "suffix ''.html'' ''foo.html''"
    by (simp_all add: suffix_to_prefix)
  have s: "redirect_one (example_env [] 200) ''out'' (''foo'', ''https://example.com'')
      empty_world =
     Done \<lparr>files = [''out/foo.html'' \<mapsto>
                generate_redirect_html ''https://example.com'' [(''og:title'', ''Example'')]],
           stdout = [''Wrote out/foo.html: redirect to https://example.com'']\<rparr>"
    by (simp add: example_env_def empty_world_def redirect_one_def out_path_def output_name_def
        join_def suffix_to_prefix parse_opengraph_meta_def find_all_def og_property_def
        og_record_def tag_get_def meta_element_def)
  note t = output_name_html_suffix [of "''foo''"]
  note u = output_name_html_suffix [of "''foo.html''"]
  from t a have c: "output_name ''foo'' = ''foo.html''" by simp
  from u b have d: "output_name ''foo.html'' = ''foo.html''" by simp
  from t s have "dom (files \<lparr>files = [''out/foo.html'' \<mapsto>
                generate_redirect_html ''https://example.com'' [(''og:title'', ''Example'')]],
           stdout = [''Wrote out/foo.html: redirect to https://example.com'']\<rparr>) =
     insert (join ''out'' (output_name ''foo'')) (dom (files empty_world))"
    by blast
  with a b c d s show ?thesis by blast
qed

lemma takeWhile_upto:
  "a \<notin> set xs \<Longrightarrow> takeWhile (\<lambda>c. c \<noteq> a) (xs @ a # ys) = xs"
  by (induction xs) auto

lemma takeWhile_all:
  "a \<notin> set xs \<Longrightarrow> takeWhile (\<lambda>c. c \<noteq> a) xs = xs"
  by (induction xs) auto

lemma basename_append:
  assumes "CHR ''/'' \<notin> set name" and "xs = [] \<or> last xs = CHR ''/''"
  shows "basename (xs @ name) = name"
proof (cases xs rule: rev_cases)
  case Nil
  with assms(1) show ?thesis
    by (simp add: basename_def takeWhile_all)
next
  case (snoc ys y)
  with assms(2) have "y = CHR ''/''" by simp
  with snoc assms(1) show ?thesis
    by (simp add: basename_def takeWhile_upto)
qed

lemma join_plain:
  assumes "CHR ''/'' \<notin> set name" and "name \<noteq> []"
  shows "\<exists>xs. (xs = [] \<or> last xs = CHR ''/'') \<and> join dir name = xs @ name"
proof -
  from assms have np: "\<not> prefix ''/'' name"
    by (cases name) auto
  show ?thesis
  proof (cases "dir = [] \<or> suffix ''/'' dir")
    case True
    then have "dir = [] \<or> last dir = CHR ''/''"
      by (auto simp: suffix_def)
    with True np show ?thesis
      by (auto simp: join_def)
  next
    case False
    with np have "join dir name = (dir @ ''/'') @ name"
      by (simp add: join_def)
    moreover have "last (dir @ ''/'') = CHR ''/''" by simp
    ultimately show ?thesis by blast
  qed
qed

text \<open>
  C7 as stated fails: a key with a \<open>/\<close> is joined as it is, so the file lands in a
  subdirectory named by the key.
\<close>

theorem out_path_nested_for_slash_key:
  "redirect_one (example_env [] 200) ''out'' (''a/b'', ''https://example.com'') empty_world =
     Done \<lparr>files = [''out/a/b.html'' \<mapsto>
                generate_redirect_html ''https://example.com'' [(''og:title'', ''Example'')]],
           stdout = [''Wrote out/a/b.html: redirect to https://example.com'']\<rparr> \<and>
   out_path ''out'' ''a/b'' = ''out/a/b.html'' \<and>
   \<not> directly_inside ''out'' (out_path ''out'' ''a/b'')"
  by (simp add: example_env_def empty_world_def redirect_one_def out_path_def output_name_def
      join_def suffix_to_prefix parse_opengraph_meta_def find_all_def og_property_def
      og_record_def tag_get_def meta_element_def directly_inside_def basename_def)

text \<open>
  C7 (amended). For a mapping key without \<open>/\<close>, the output path is the output
  directory joined with a single file name.
\<close>

theorem out_path_directly_inside:
  assumes "CHR ''/'' \<notin> set src"
  shows "directly_inside out_dir (out_path out_dir src)"
proof -
  from assms have n: "CHR ''/'' \<notin> set (output_name src)" "output_name src \<noteq> []"
    by (auto simp: output_name_def)
  then obtain xs where xs: "xs = [] \<or> last xs = CHR ''/''"
      "join out_dir (output_name src) = xs @ output_name src"
    using join_plain by blast
  with n(1) have "basename (join out_dir (output_name src)) = output_name src"
    by (simp add: basename_append)
  with n(2) show ?thesis
    by (simp add: directly_inside_def out_path_def)
qed

theorem out_path_directly_inside_witness:
  "CHR ''/'' \<notin> set ''home'' \<and> out_path ''out'' ''home'' = ''out/home.html'' \<and>
   directly_inside ''out'' ''out/home.html''"
proof -
  have a: "CHR ''/'' \<notin> set ''home''" by simp
  have b: "out_path ''out'' ''home'' = ''out/home.html''"
    by (simp add: out_path_def output_name_def join_def suffix_to_prefix)
  from out_path_directly_inside [OF a, of "''out''"] b a show ?thesis by simp
qed

lemma redirect_one_status_independent:
  assumes "\<forall>url. map_sum id res_text (get' url) = map_sum id res_text (requests_get e url)"
  shows "redirect_one (e\<lparr>requests_get := get'\<rparr>) out_dir item w = redirect_one e out_dir item w"
proof -
  obtain src dst where item: "item = (src, dst)" by (cases item)
  from assms have "map_sum id res_text (get' dst) = map_sum id res_text (requests_get e dst)"
    by simp
  then show ?thesis
    unfolding item
    by (cases "get' dst"; cases "requests_get e dst") (simp_all add: redirect_one_def)
qed

lemma redirects_loop_status_independent:
  assumes "\<forall>url. map_sum id res_text (get' url) = map_sum id res_text (requests_get e url)"
  shows "redirects_loop (e\<lparr>requests_get := get'\<rparr>) out_dir items w =
         redirects_loop e out_dir items w"
  by (induction items arbitrary: w)
    (simp_all add: redirect_one_status_independent [OF assms] split: outcome.splits)

text \<open>
  C8. Two fetch functions that fail on the same destinations with the same message and
  return the same text elsewhere, whatever their status codes, give the same run: the same
  files with the same content, the same printed lines, the same error if any.
\<close>

theorem redirects_status_code_independent:
  assumes "\<forall>url. map_sum id res_text (get' url) = map_sum id res_text (requests_get e url)"
  shows "redirects (e\<lparr>requests_get := get'\<rparr>) out_dir w = redirects e out_dir w"
  by (simp add: redirects_def redirects_loop_status_independent [OF assms]
      split: option.splits)

text \<open>The run on a mapping with one reachable destination.\<close>

lemma redirects_example:
  "redirects (example_env [(''home'', ''https://example.com'')] code) ''out'' empty_world =
     Done \<lparr>files = [''out/home.html'' \<mapsto>
                generate_redirect_html ''https://example.com'' [(''og:title'', ''Example'')]],
           stdout = [''Wrote out/home.html: redirect to https://example.com'']\<rparr>"
  by (simp add: redirects_def example_env_def empty_world_def redirect_one_def out_path_def
      output_name_def join_def suffix_to_prefix parse_opengraph_meta_def find_all_def
      og_property_def og_record_def tag_get_def meta_element_def)

theorem redirects_status_code_independent_witness:
  "(\<forall>url. map_sum id res_text
        (requests_get (example_env [(''home'', ''https://example.com'')] 404) url) =
      map_sum id res_text
        (requests_get (example_env [(''home'', ''https://example.com'')] 200) url)) \<and>
   requests_get (example_env [(''home'', ''https://example.com'')] 404) ''https://example.com''
     \<noteq> requests_get (example_env [(''home'', ''https://example.com'')] 200)
       ''https://example.com'' \<and>
   redirects (example_env [(''home'', ''https://example.com'')] 404) ''out'' empty_world =
   redirects (example_env [(''home'', ''https://example.com'')] 200) ''out'' empty_world \<and>
   redirects (example_env [(''home'', ''https://example.com'')] 404) ''out'' empty_world =
     Done \<lparr>files = [''out/home.html'' \<mapsto>
                generate_redirect_html ''https://example.com'' [(''og:title'', ''Example'')]],
           stdout = [''Wrote out/home.html: redirect to https://example.com'']\<rparr>"
proof -
  let ?m = "[(''home'', ''https://example.com'')]"
  have h: "\<forall>url. map_sum id res_text (requests_get (example_env ?m 404) url) =
      map_sum id res_text (requests_get (example_env ?m 200) url)"
    by (simp add: example_env_def)
  have d: "requests_get (example_env ?m 404) ''https://example.com''
     \<noteq> requests_get (example_env ?m 200) ''https://example.com''"
    by (simp add: example_env_def)
  have e: "(example_env ?m 200)\<lparr>requests_get := requests_get (example_env ?m 404)\<rparr> =
      example_env ?m 404"
    by (simp add: example_env_def)
  from redirects_status_code_independent [OF h, of "''out''" empty_world]
  have "redirects (example_env ?m 404) ''out'' empty_world =
        redirects (example_env ?m 200) ''out'' empty_world"
    unfolding e .
  with h d show ?thesis
    by (simp only: redirects_example simp_thms)
qed

end
